theory Spec2Isabelle
  imports Main "HOL-Library.Word"
begin

section \<open>Data model\<close>

text \<open>
  Spade Edge is an HTTP ingestion service written in Go. This theory embeds
  \<^verbatim>\<open>requests/request_handler.go\<close> and the \<^verbatim>\<open>Log\<close> method of \<^verbatim>\<open>loggers/s3.go\<close>.
  Go strings and byte slices are byte sequences, modelled as \<^typ>\<open>string\<close>.
  A Go \<^verbatim>\<open>error\<close> value is modelled by its message, \<^verbatim>\<open>nil\<close> by \<^term>\<open>None\<close>.
  A run-time panic is a value of its own type, so that every function that may
  panic returns a sum.
\<close>

datatype error = Error string

datatype panic = Panic string

fun error_message :: "error \<Rightarrow> string" where
  "error_message (Error m) = m"

type_synonym IP = "string option"

text \<open>
  \<^verbatim>\<open>spade.Event\<close> as built by \<^verbatim>\<open>spade.NewEvent\<close>: the arguments of the constructor in
  their order. Times are nanoseconds since the Unix epoch.
\<close>

record Event =
  ReceivedAt :: int
  ClientIp :: IP
  XForwardedFor :: string
  Uuid :: string
  Data :: string
  UserAgent :: string
  EdgeType :: string

text \<open>
  The interface \<^verbatim>\<open>loggers.SpadeEdgeLogger\<close> has the methods \<^verbatim>\<open>Log(*spade.Event) error\<close>
  and \<^verbatim>\<open>Close()\<close>. An interface value is its method table together with the state of
  the receiver (\<open>this\<close>); a call threads the receiver's state.
\<close>

record 's SpadeEdgeLogger =
  Log :: "'s \<Rightarrow> Event \<Rightarrow> error option \<times> 's"
  Close :: "'s \<Rightarrow> 's"
  this :: 's

definition call_Log :: "'s SpadeEdgeLogger \<Rightarrow> Event \<Rightarrow> error option \<times> 's SpadeEdgeLogger" where
  "call_Log l e = (case Log l (this l) e of (err, s') \<Rightarrow> (err, l\<lparr>this := s'\<rparr>))"

definition call_Close :: "'s SpadeEdgeLogger \<Rightarrow> 's SpadeEdgeLogger" where
  "call_Close l = l\<lparr>this := Close l (this l)\<rparr>"

subsection \<open>The object sink's Log (loggers/s3.go)\<close>

text \<open>
  \<^verbatim>\<open>s3Logger\<close> holds the upload logger of the external package \<^verbatim>\<open>gologging\<close> and the
  formatting function. \<^verbatim>\<open>uploadLogger.Log(s)\<close> has no result in Go; what it does with
  the line is the parameter \<open>upl_Log\<close>, a transformer of the pipeline's state.
  \<^verbatim>\<open>EventToStringFunc\<close> returns \<^verbatim>\<open>(string, error)\<close>: \<^term>\<open>Inl\<close> is the error.
\<close>

record 'u s3Logger =
  uploadLogger :: 'u
  eventToStringFunc :: "Event \<Rightarrow> error + string"

definition s3Logger_Log :: "('u \<Rightarrow> string \<Rightarrow> 'u) \<Rightarrow> 'u s3Logger \<Rightarrow> Event \<Rightarrow> error option \<times> 'u s3Logger" where
  "s3Logger_Log upl_Log s3l e =
     (case eventToStringFunc s3l e of
        Inl err \<Rightarrow> (Some err, s3l)
      | Inr s \<Rightarrow> (None, s3l\<lparr>uploadLogger := upl_Log (uploadLogger s3l) s\<rparr>))"

definition s3Logger_Close :: "('u \<Rightarrow> 'u) \<Rightarrow> 'u s3Logger \<Rightarrow> 'u s3Logger" where
  "s3Logger_Close upl_Close s3l = s3l\<lparr>uploadLogger := upl_Close (uploadLogger s3l)\<rparr>"

subsection \<open>Request context\<close>

text \<open>
  The fields of \<^verbatim>\<open>RequestContext\<close> that \<^verbatim>\<open>RequestSetup\<close> and the handler assign. The
  \<^verbatim>\<open>Timers\<close> map holds wall-clock durations and is left out.
\<close>

record RequestContext =
  Now :: int
  Method :: string
  Endpoint :: string
  IPHeader :: string
  BadClient :: bool
  Status :: nat
  LoggerAttempts :: "(string \<times> bool) list"

text \<open>
  Modelled from the spec: \<^verbatim>\<open>RequestContext.RecordLoggerAttempt\<close> lives in a file of the
  repository that is not part of the sources at hand. The spec lists "per-sink attempt
  outcomes" among the fields of the context: the call appends the sink's name and
  whether the attempt succeeded.
\<close>

definition RecordLoggerAttempt :: "RequestContext \<Rightarrow> error option \<Rightarrow> string \<Rightarrow> RequestContext" where
  "RecordLoggerAttempt c err name = c\<lparr>LoggerAttempts := LoggerAttempts c @ [(name, err = None)]\<rparr>"

subsection \<open>EdgeLoggers\<close>

text \<open>
  The channel \<^verbatim>\<open>closed\<close> carries no values: all that matters is whether it has been
  closed, a boolean. The embedded \<^verbatim>\<open>sync.WaitGroup\<close> counts the calls of \<^verbatim>\<open>log\<close> in
  flight; in this sequential model \<^verbatim>\<open>Add(1)\<close> and the deferred \<^verbatim>\<open>Done()\<close> cancel, and
  \<^verbatim>\<open>Wait()\<close> returns at once.
\<close>

record ('a, 'b) EdgeLoggers =
  closed :: bool
  S3EventLogger :: "'a SpadeEdgeLogger"
  KinesisEventLogger :: "'b SpadeEdgeLogger"

definition EdgeLoggers_log ::
  "('a, 'b) EdgeLoggers \<Rightarrow> Event \<Rightarrow> RequestContext \<Rightarrow> error option \<times> ('a, 'b) EdgeLoggers \<times> RequestContext" where
  "EdgeLoggers_log e event context =
     (if closed e then (Some (Error ''Loggers are shutting down''), e, context)
      else
        (case call_Log (S3EventLogger e) event of (eventErr, s3') \<Rightarrow>
         (case call_Log (KinesisEventLogger e) event of (kinesisErr, kinesis') \<Rightarrow>
           (let context1 = RecordLoggerAttempt context eventErr ''event'';
                context2 = RecordLoggerAttempt context1 kinesisErr ''kinesis'';
                e' = e\<lparr>S3EventLogger := s3', KinesisEventLogger := kinesis'\<rparr>
            in if eventErr \<noteq> None \<and> kinesisErr \<noteq> None
               then (Some (Error ''Failed to store the event in any of the loggers''), e', context2)
               else (None, e', context2)))))"

text \<open>
  \<^verbatim>\<open>close(e.closed)\<close> on a channel that is already closed panics (Go language
  specification, "Close"); otherwise the channel is closed, then the stream sink and
  the object sink are closed, in this order.
\<close>

definition EdgeLoggers_Close :: "('a, 'b) EdgeLoggers \<Rightarrow> panic + ('a, 'b) EdgeLoggers" where
  "EdgeLoggers_Close e =
     (if closed e then Inl (Panic ''close of closed channel'')
      else
        (let e1 = e\<lparr>closed := True\<rparr>;
             e2 = e1\<lparr>KinesisEventLogger := call_Close (KinesisEventLogger e1)\<rparr>;
             e3 = e2\<lparr>S3EventLogger := call_Close (S3EventLogger e2)\<rparr>
         in Inr e3))"

text \<open>
  A sink for concrete runs: it keeps the events it accepted and refuses every event
  while its flag \<open>failing\<close> is set.
\<close>

record memSink =
  accepted :: "Event list"
  failing :: bool
  shut :: bool

definition memSink_Log :: "memSink \<Rightarrow> Event \<Rightarrow> error option \<times> memSink" where
  "memSink_Log s e =
     (if failing s then (Some (Error ''sink failure''), s)
      else (None, s\<lparr>accepted := accepted s @ [e]\<rparr>))"

definition memSink_Close :: "memSink \<Rightarrow> memSink" where
  "memSink_Close s = s\<lparr>shut := True\<rparr>"

definition memLogger :: "bool \<Rightarrow> memSink SpadeEdgeLogger" where
  "memLogger f = \<lparr>Log = memSink_Log, Close = memSink_Close,
                  this = \<lparr>accepted = [], failing = f, shut = False\<rparr>\<rparr>"

definition testLoggers :: "bool \<Rightarrow> bool \<Rightarrow> (memSink, memSink) EdgeLoggers" where
  "testLoggers f g = \<lparr>closed = False, S3EventLogger = memLogger f, KinesisEventLogger = memLogger g\<rparr>"

section \<open>Strings, formatting and encodings of the Go library\<close>

subsection \<open>Package strings\<close>

text \<open>
  \<^verbatim>\<open>strings.LastIndex(s, ",")\<close> for a separator of one byte: the index of its last
  occurrence, or \<open>-1\<close>.
\<close>

fun LastIndex :: "string \<Rightarrow> char \<Rightarrow> int" where
  "LastIndex [] c = -1"
| "LastIndex (x # xs) c =
     (let r = LastIndex xs c
      in if r \<noteq> -1 then r + 1 else if x = c then 0 else -1)"

text \<open>
  \<^verbatim>\<open>strings.TrimSpace\<close> on the white space of ASCII: tab, line feed, vertical tab, form
  feed, carriage return and space. (Go also trims the Unicode spaces beyond ASCII,
  which take several bytes each and are not modelled.)
\<close>

definition isSpace :: "char \<Rightarrow> bool" where
  "isSpace c = (c = CHR 0x09 \<or> c = CHR 0x0A \<or> c = CHR 0x0B \<or> c = CHR 0x0C \<or> c = CHR 0x0D \<or> c = CHR '' '')"

definition TrimSpace :: "string \<Rightarrow> string" where
  "TrimSpace s = rev (dropWhile isSpace (rev (dropWhile isSpace s)))"

definition HasPrefix :: "string \<Rightarrow> string \<Rightarrow> bool" where
  "HasPrefix s p = (take (length p) s = p)"

definition HasSuffix :: "string \<Rightarrow> string \<Rightarrow> bool" where
  "HasSuffix s p = (length p \<le> length s \<and> drop (length s - length p) s = p)"


subsection \<open>The verb \<^verbatim>\<open>%08x\<close> of package fmt\<close>

definition hexdigit :: "nat \<Rightarrow> char" where
  "hexdigit n = ''0123456789abcdef'' ! n"

fun hex :: "nat \<Rightarrow> string" where
  "hex n = (if n < 16 then [hexdigit n] else hex (n div 16) @ [hexdigit (n mod 16)])"

declare hex.simps [simp del]

definition pad0 :: "nat \<Rightarrow> string \<Rightarrow> string" where
  "pad0 w s = replicate (w - length s) CHR ''0'' @ s"

text \<open>
  \<^verbatim>\<open>%08x\<close> of a \<^verbatim>\<open>uint64\<close>: lower-case hexadecimal, padded with zeros to eight digits,
  longer when the value needs more.
\<close>

definition fmt_08x_uint64 :: "64 word \<Rightarrow> string" where
  "fmt_08x_uint64 c = pad0 8 (hex (unat c))"

text \<open>
  \<^verbatim>\<open>%08x\<close> of an \<^verbatim>\<open>int64\<close>: a negative value is written with its sign, which counts
  in the width of eight.
\<close>

definition fmt_08x_int64 :: "int \<Rightarrow> string" where
  "fmt_08x_int64 i = (if i < 0 then CHR ''-'' # pad0 7 (hex (nat (- i))) else pad0 8 (hex (nat i)))"

text \<open>\<^verbatim>\<open>time.Time.Unix()\<close>: whole seconds since the epoch, rounded down.\<close>

definition Unix :: "int \<Rightarrow> int" where
  "Unix t = t div 1000000000"

subsection \<open>Package encoding/base64\<close>

definition encodeStd :: string where
  "encodeStd = ''ABCDEFGHIJKLMNOPQRSTUVWXYZabcdefghijklmnopqrstuvwxyz0123456789+/''"

definition encodeURL :: string where
  "encodeURL = ''ABCDEFGHIJKLMNOPQRSTUVWXYZabcdefghijklmnopqrstuvwxyz0123456789-_''"

text \<open>
  \<^verbatim>\<open>Encoding.EncodeToString\<close> with padding: three bytes give four characters of the
  alphabet; one or two remaining bytes give two or three characters and \<^verbatim>\<open>=\<close> signs.
\<close>

fun EncodeToString :: "string \<Rightarrow> string \<Rightarrow> string" where
  "EncodeToString al [] = []"
| "EncodeToString al [a] =
     (let x = (of_char a :: nat)
      in [al ! (x div 4), al ! ((x mod 4) * 16), CHR ''='', CHR ''=''])"
| "EncodeToString al [a, b] =
     (let x = (of_char a :: nat); y = (of_char b :: nat)
      in [al ! (x div 4), al ! ((x mod 4) * 16 + y div 16), al ! ((y mod 16) * 4), CHR ''=''])"
| "EncodeToString al (a # b # c # rest) =
     (let x = (of_char a :: nat); y = (of_char b :: nat); z = (of_char c :: nat)
      in [al ! (x div 4), al ! ((x mod 4) * 16 + y div 16),
          al ! ((y mod 16) * 4 + z div 64), al ! (z mod 64)] @ EncodeToString al rest)"

fun index_of :: "'a list \<Rightarrow> 'a \<Rightarrow> nat option" where
  "index_of [] c = None"
| "index_of (x # xs) c = (if x = c then Some 0 else map_option Suc (index_of xs c))"

definition corruptInput :: error where
  "corruptInput = Error ''illegal base64 data''"

text \<open>
  The decoder reads quanta of four characters. A quantum may end in \<^verbatim>\<open>==\<close> or \<^verbatim>\<open>=\<close>,
  and then it is the last one; the unused low bits of the last character are
  dropped (the decoder is not in strict mode). Anything else outside the alphabet,
  and an incomplete quantum, is a \<^verbatim>\<open>CorruptInputError\<close> (its offset, which the handler
  only logs, is not modelled).
\<close>

fun decodeQuanta :: "string \<Rightarrow> string \<Rightarrow> error + string" where
  "decodeQuanta al (a # b # c # d # rest) =
     (case (index_of al a, index_of al b) of
        (Some x, Some y) \<Rightarrow>
          (if c = CHR ''='' then
             (if d = CHR ''='' \<and> rest = [] then Inr [char_of (x * 4 + y div 16)] else Inl corruptInput)
           else
             (case index_of al c of
                None \<Rightarrow> Inl corruptInput
              | Some z \<Rightarrow>
                  (if d = CHR ''='' then
                     (if rest = [] then Inr [char_of (x * 4 + y div 16), char_of ((y mod 16) * 16 + z div 4)]
                      else Inl corruptInput)
                   else
                     (case index_of al d of
                        None \<Rightarrow> Inl corruptInput
                      | Some w \<Rightarrow>
                          (case decodeQuanta al rest of
                             Inl e \<Rightarrow> Inl e
                           | Inr bs \<Rightarrow>
                               Inr (char_of (x * 4 + y div 16) # char_of ((y mod 16) * 16 + z div 4)
                                    # char_of ((z mod 4) * 64 + w) # bs))))))
      | _ \<Rightarrow> Inl corruptInput)"
| "decodeQuanta al [] = Inr []"
| "decodeQuanta al _ = Inl corruptInput"

text \<open>\<^verbatim>\<open>Encoding.Decode\<close> skips carriage returns and line feeds wherever they stand.\<close>

definition Decode :: "string \<Rightarrow> string \<Rightarrow> error + string" where
  "Decode al s = decodeQuanta al (filter (\<lambda>c. c \<noteq> CHR 0x0A \<and> c \<noteq> CHR 0x0D) s)"

text \<open>
  Modelled from the spec: \<^verbatim>\<open>spade.DetermineBase64Encoding\<close> belongs to the package
  \<^verbatim>\<open>scoop_protocol/spade\<close>, whose source is not at hand. The spec: "decide by scanning
  the payload for \<^verbatim>\<open>-\<close> or \<^verbatim>\<open>_\<close> (URL-safe markers) before \<^verbatim>\<open>+\<close> or \<^verbatim>\<open>/\<close>; tie-break to
  standard alphabet". The result is the alphabet of the encoding.
\<close>

fun DetermineBase64Encoding :: "string \<Rightarrow> string" where
  "DetermineBase64Encoding [] = encodeStd"
| "DetermineBase64Encoding (c # cs) =
     (if c = CHR ''+'' \<or> c = CHR ''/'' then encodeStd
      else if c = CHR ''-'' \<or> c = CHR ''_'' then encodeURL
      else DetermineBase64Encoding cs)"

subsection \<open>Byte slices\<close>

text \<open>
  A Go slice is a window on a backing array: \<open>arr\<close> is the array from the start of
  the slice to its capacity, \<open>len\<close> the length of the slice. The upper bound of a
  slice expression on a slice is its capacity, not its length (Go language
  specification, "Slice expressions"); out of range, the expression panics.
\<close>

record slice =
  arr :: string
  len :: nat

definition contents :: "slice \<Rightarrow> string" where
  "contents b = take (len b) (arr b)"

definition cap :: "slice \<Rightarrow> nat" where
  "cap b = length (arr b)"

definition slice_to :: "slice \<Rightarrow> nat \<Rightarrow> panic + slice" where
  "slice_to b hi =
     (if hi \<le> cap b then Inr (b\<lparr>len := hi\<rparr>)
      else Inl (Panic ''slice bounds out of range''))"

definition slice_from :: "slice \<Rightarrow> nat \<Rightarrow> panic + slice" where
  "slice_from b lo =
     (if lo \<le> len b then Inr \<lparr>arr = drop lo (arr b), len = len b - lo\<rparr>
      else Inl (Panic ''slice bounds out of range''))"

definition bytes_Equal :: "slice \<Rightarrow> string \<Rightarrow> bool" where
  "bytes_Equal b s = (contents b = s)"

text \<open>
  \<^verbatim>\<open>ioutil.ReadAll\<close> reads into a buffer that it first grows to \<^verbatim>\<open>bytes.MinRead\<close> = 512
  bytes of zeroed memory; the slice it returns is the bytes read, on that buffer.
  (A longer body makes the buffer grow; how far beyond the length is not modelled.)
\<close>

definition ReadAll :: "string \<Rightarrow> slice" where
  "ReadAll body = \<lparr>arr = body @ replicate (512 - length body) (CHR 0x00), len = length body\<rparr>"

section \<open>The request handler (requests/request_handler.go)\<close>

subsection \<open>Constants\<close>

definition dataFlag :: string where
  "dataFlag = ''data=''"



definition maxBytesPerRequest :: nat where
  "maxBytesPerRequest = 500 * 1024"

definition maxUserAgentBytes :: nat where
  "maxUserAgentBytes = 1024"

definition largeBodyErrorString :: string where
  "largeBodyErrorString = ''http: request body too large''"



abbreviation StatusOK :: nat where "StatusOK \<equiv> 200"
abbreviation StatusNoContent :: nat where "StatusNoContent \<equiv> 204"
abbreviation StatusBadRequest :: nat where "StatusBadRequest \<equiv> 400"
abbreviation StatusRequestEntityTooLarge :: nat where "StatusRequestEntityTooLarge \<equiv> 413"
abbreviation StatusInternalServerError :: nat where "StatusInternalServerError \<equiv> 500"
abbreviation StatusBadGateway :: nat where "StatusBadGateway \<equiv> 502"


subsection \<open>Requests and responses of net/http\<close>

text \<open>
  \<^verbatim>\<open>url.Values\<close> maps a key to its values; a key that is absent has none.
  \<^verbatim>\<open>Values.Get\<close> is the first value of the key, or the empty string.
\<close>

type_synonym Values = "string \<Rightarrow> string list"

definition Get :: "Values \<Rightarrow> string \<Rightarrow> string" where
  "Get vs k = (case vs k of [] \<Rightarrow> [] | v # _ \<Rightarrow> v)"

text \<open>
  What the handler reads of an \<^verbatim>\<open>http.Request\<close>: the method, \<^verbatim>\<open>URL.Path\<close>,
  \<^verbatim>\<open>Header.Get\<close>, what \<^verbatim>\<open>ParseForm()\<close> returns and the \<^verbatim>\<open>Form\<close> it leaves, the bytes
  that reading \<^verbatim>\<open>Body\<close> yields and the error, if any, that ends the reading.
\<close>

record Request =
  rMethod :: string
  rPath :: string
  rHeader :: "string \<Rightarrow> string"
  rParseForm :: "error option"
  rForm :: Values
  rBody :: string
  rBodyErr :: "error option"






subsection \<open>SpadeHandler\<close>

text \<open>
  The fields of \<^verbatim>\<open>SpadeHandler\<close> that the handler's logic reads or writes. The fields
  \<^verbatim>\<open>EdgeLoggers\<close> and \<^verbatim>\<open>EdgeType\<close> are written with a lower-case initial here, apart
  from the record of the loggers and the field of the event. The statsd client and
  the logger only receive counters and messages, which are not modelled.
  \<^verbatim>\<open>eventCount\<close> is a \<^verbatim>\<open>uint64\<close>.
\<close>

record ('a, 'b) SpadeHandler =
  edgeLoggers :: "('a, 'b) EdgeLoggers"
  edgeType :: string
  crossDomainPolicy :: string
  instanceID :: string
  eventCount :: "64 word"
  handleLargeEvents :: bool

definition parseLastForwarder :: "(string \<Rightarrow> IP) \<Rightarrow> string \<Rightarrow> IP" where
  "parseLastForwarder ParseIP header =
     (let comma = LastIndex header (CHR '','');
          clientIP = (if comma > -1 \<and> comma < int (length header) + 1
                      then drop (nat (comma + 1)) header
                      else header)
      in ParseIP (TrimSpace clientIP))"

definition shouldWritePixel :: "Values \<Rightarrow> bool" where
  "shouldWritePixel values = (Get values ''img'' = ''1'')"

text \<open>
  \<^verbatim>\<open>atomic.AddUint64(&s.eventCount, 1)\<close> adds one modulo \<open>2^64\<close> and returns the new
  value.
\<close>

definition buildEvent ::
  "('a, 'b) SpadeHandler \<Rightarrow> string \<Rightarrow> RequestContext \<Rightarrow> IP \<Rightarrow> string \<Rightarrow> string
   \<Rightarrow> Event \<times> ('a, 'b) SpadeHandler" where
  "buildEvent s data context clientIP xForwardedFor userAgent =
     (let count = eventCount s + 1;
          uuid = instanceID s @ ''-'' @ fmt_08x_int64 (Unix (Now context)) @ ''-'' @ fmt_08x_uint64 count
      in (\<lparr>ReceivedAt = Now context, ClientIp = clientIP, XForwardedFor = xForwardedFor,
           Uuid = uuid, Data = data, UserAgent = userAgent, EdgeType = edgeType s\<rparr>,
          s\<lparr>eventCount := count\<rparr>))"

text \<open>
  The loop over the elements of a large request (lines 313 to 330): each element is
  encoded again, built into an event and logged; an element that is still too large
  sets the status to 413 and is logged all the same.
\<close>

fun splitLoop ::
  "('a, 'b) SpadeHandler \<Rightarrow> RequestContext \<Rightarrow> IP \<Rightarrow> string \<Rightarrow> string \<Rightarrow> string list
   \<Rightarrow> nat \<Rightarrow> nat \<Rightarrow> nat \<Rightarrow> nat \<times> nat \<times> nat \<times> ('a, 'b) SpadeHandler \<times> RequestContext" where
  "splitLoop s context clientIP xff ua [] statusCode successCount failCount =
     (statusCode, successCount, failCount, s, context)"
| "splitLoop s context clientIP xff ua (ev # evs) statusCode successCount failCount =
     (let encEvent = EncodeToString encodeStd ev;
          statusCode' = (if length encEvent > maxBytesPerRequest
                         then StatusRequestEntityTooLarge else statusCode)
      in case buildEvent s encEvent context clientIP xff ua of (event, s1) \<Rightarrow>
         (case EdgeLoggers_log (edgeLoggers s1) event context of (err, loggers', context') \<Rightarrow>
            (if err \<noteq> None
             then splitLoop (s1\<lparr>edgeLoggers := loggers'\<rparr>) context' clientIP xff ua evs
                    statusCode' successCount (failCount + 1)
             else splitLoop (s1\<lparr>edgeLoggers := loggers'\<rparr>) context' clientIP xff ua evs
                    statusCode' (successCount + 1) failCount)))"

text \<open>
  The branch for a payload above \<^term>\<open>maxBytesPerRequest\<close> when large events are
  handled (lines 281 to 346). \<^verbatim>\<open>json.Unmarshal\<close> into \<^verbatim>\<open>[]json.RawMessage\<close> is the
  parameter \<open>Unmarshal\<close>: the raw text of every element of the array, or an error.
  The source decodes in place and compares \<^verbatim>\<open>bData[:2]\<close>; with at least two decoded
  bytes these are the first two decoded bytes, and with one decoded byte the second
  byte is a character of the encoded text, never an opening brace.
\<close>

definition splitLargeRequest ::
  "(string \<Rightarrow> error + string list) \<Rightarrow> ('a, 'b) SpadeHandler \<Rightarrow> RequestContext \<Rightarrow> IP \<Rightarrow> string
   \<Rightarrow> string \<Rightarrow> string \<Rightarrow> Event option \<times> nat \<times> ('a, 'b) SpadeHandler \<times> RequestContext" where
  "splitLargeRequest Unmarshal s context clientIP xff ua data =
     (case Decode (DetermineBase64Encoding data) data of
        Inl err \<Rightarrow> (None, StatusRequestEntityTooLarge, s, context)
      | Inr decoded \<Rightarrow>
          (if length decoded < 1 \<or> take 2 decoded \<noteq> ''[{''
           then (None, StatusRequestEntityTooLarge, s, context)
           else
             (case Unmarshal decoded of
                Inl err \<Rightarrow> (None, StatusRequestEntityTooLarge, s, context)
              | Inr events \<Rightarrow>
                  (case splitLoop s context clientIP xff ua events StatusNoContent 0 0 of
                     (statusCode, successCount, failCount, s', context') \<Rightarrow>
                       (if successCount = 0
                        then (None, StatusInternalServerError, s', context')
                        else (None, statusCode, s', context'))))))"

text \<open>
  Lines 230 to 259: the payload is the form value \<^verbatim>\<open>data\<close>, or for a POST without
  it the raw body. The result is a panic, a status that ends the request, or the
  payload with the context.
\<close>

definition readData :: "Request \<Rightarrow> RequestContext \<Rightarrow> panic + (nat + string \<times> RequestContext)" where
  "readData r context =
     (let data = Get (rForm r) ''data''
      in if data = [] \<and> rMethod r = ''POST'' then
           (let b = ReadAll (rBody r)
            in case rBodyErr r of
                 Some err \<Rightarrow>
                   (if error_message err = largeBodyErrorString then Inr (Inl StatusRequestEntityTooLarge)
                    else if HasSuffix (error_message err) ''i/o timeout'' then Inr (Inl StatusBadGateway)
                    else Inr (Inl StatusBadRequest))
               | None \<Rightarrow>
                   (case slice_to b 5 of
                      Inl p \<Rightarrow> Inl p
                    | Inr b5 \<Rightarrow>
                        (if bytes_Equal b5 dataFlag then
                           (case slice_from b 5 of
                              Inl p \<Rightarrow> Inl p
                            | Inr b' \<Rightarrow> Inr (Inr (contents b', context\<lparr>BadClient := True\<rparr>)))
                         else Inr (Inr (contents b, context)))))
         else Inr (Inr (data, context)))"

definition ExtractEvent ::
  "(string \<Rightarrow> IP) \<Rightarrow> (string \<Rightarrow> error + string list) \<Rightarrow> ('a, 'b) SpadeHandler \<Rightarrow> Request
   \<Rightarrow> Values \<Rightarrow> RequestContext
   \<Rightarrow> panic + Event option \<times> nat \<times> ('a, 'b) SpadeHandler \<times> RequestContext" where
  "ExtractEvent ParseIP Unmarshal s r values context =
     (let xForwardedFor = rHeader r (IPHeader context);
          clientIP = parseLastForwarder ParseIP xForwardedFor
      in case rParseForm r of
           Some err \<Rightarrow>
             (if error_message err = largeBodyErrorString
              then Inr (None, StatusRequestEntityTooLarge, s, context)
              else Inr (None, StatusBadRequest, s, context))
         | None \<Rightarrow>
             (case readData r context of
                Inl p \<Rightarrow> Inl p
              | Inr (Inl status) \<Rightarrow> Inr (None, status, s, context)
              | Inr (Inr (data, context1)) \<Rightarrow>
                  (if data = [] then Inr (None, StatusBadRequest, s, context1)
                   else
                     (let userAgent =
                            (if Get values ''ua'' = ''1'' then
                               (let ua = rHeader r ''User-Agent''
                                in if length ua > maxUserAgentBytes then [] else ua)
                             else [])
                      in if length data > maxBytesPerRequest then
                           (if \<not> handleLargeEvents s
                            then Inr (None, StatusRequestEntityTooLarge, s, context1)
                            else Inr (splitLargeRequest Unmarshal s context1 clientIP xForwardedFor userAgent data))
                         else
                           (case buildEvent s data context1 clientIP xForwardedFor userAgent of
                              (event, s') \<Rightarrow>
                                (if shouldWritePixel values
                                 then Inr (Some event, StatusOK, s', context1)
                                 else Inr (Some event, StatusNoContent, s', context1)))))))"

definition handleSpadeRequests ::
  "(string \<Rightarrow> IP) \<Rightarrow> (string \<Rightarrow> error + string list) \<Rightarrow> ('a, 'b) SpadeHandler \<Rightarrow> Request
   \<Rightarrow> Values \<Rightarrow> RequestContext \<Rightarrow> panic + nat \<times> ('a, 'b) SpadeHandler \<times> RequestContext" where
  "handleSpadeRequests ParseIP Unmarshal s r values context =
     (case ExtractEvent ParseIP Unmarshal s r values context of
        Inl p \<Rightarrow> Inl p
      | Inr (None, statusCode, s', context') \<Rightarrow> Inr (statusCode, s', context')
      | Inr (Some event, statusCode, s', context') \<Rightarrow>
          (case EdgeLoggers_log (edgeLoggers s') event context' of
             (err, loggers', context'') \<Rightarrow>
               (if err \<noteq> None
                then Inr (StatusInternalServerError, s'\<lparr>edgeLoggers := loggers'\<rparr>, context'')
                else Inr (statusCode, s'\<lparr>edgeLoggers := loggers'\<rparr>, context''))))"







section \<open>Definitions that follow the specification\<close>



text \<open>
  A run of the handler: the events that successive calls of \<^term>\<open>buildEvent\<close> build,
  one call for each element of the list, each on the handler that the call before
  left. Reading a uuid back: \<open>uuidCounter\<close> is the value of the hexadecimal digits
  after the last hyphen.
\<close>

definition hexval :: "char \<Rightarrow> nat" where
  "hexval c = (case index_of ''0123456789abcdef'' c of Some n \<Rightarrow> n | None \<Rightarrow> 0)"

definition unhex :: "string \<Rightarrow> nat" where
  "unhex s = foldl (\<lambda>a c. 16 * a + hexval c) 0 s"

definition uuidCounter :: "string \<Rightarrow> nat" where
  "uuidCounter uuid = unhex (rev (takeWhile (\<lambda>c. c \<noteq> CHR ''-'') (rev uuid)))"

fun buildRun ::
  "('a, 'b) SpadeHandler \<Rightarrow> (string \<times> RequestContext \<times> IP \<times> string \<times> string) list
   \<Rightarrow> Event list \<times> ('a, 'b) SpadeHandler" where
  "buildRun s [] = ([], s)"
| "buildRun s ((data, context, clientIP, xff, ua) # rest) =
     (case buildEvent s data context clientIP xff ua of
        (event, s1) \<Rightarrow> (case buildRun s1 rest of (events, s2) \<Rightarrow> (event # events, s2)))"

text \<open>
  Notions for the statements about large requests: an element whose text, encoded
  again, is above the limit; the user agent that \<^verbatim>\<open>ExtractEvent\<close> attaches (lines 265
  to 273); and loggers that are open and whose two sinks are recording sinks with the
  given flags and the given accepted events.
\<close>

definition reencodedTooLarge :: "string \<Rightarrow> bool" where
  "reencodedTooLarge element = (length (EncodeToString encodeStd element) > maxBytesPerRequest)"

definition requestUserAgent :: "Request \<Rightarrow> Values \<Rightarrow> string" where
  "requestUserAgent r values =
     (if Get values ''ua'' = ''1'' then
        (let ua = rHeader r ''User-Agent''
         in if length ua > maxUserAgentBytes then [] else ua)
      else [])"

definition recordingLoggers ::
  "(memSink, memSink) EdgeLoggers \<Rightarrow> bool \<Rightarrow> bool \<Rightarrow> Event list \<Rightarrow> Event list \<Rightarrow> bool" where
  "recordingLoggers lg f g A K =
     (\<not> closed lg
      \<and> Log (S3EventLogger lg) = memSink_Log \<and> failing (this (S3EventLogger lg)) = f
      \<and> accepted (this (S3EventLogger lg)) = A
      \<and> Log (KinesisEventLogger lg) = memSink_Log \<and> failing (this (KinesisEventLogger lg)) = g
      \<and> accepted (this (KinesisEventLogger lg)) = K)"

section \<open>Concrete runs\<close>

text \<open>
  Values for concrete runs: a context as \<^verbatim>\<open>RequestSetup\<close> makes it, stand-ins for
  \<^verbatim>\<open>net.ParseIP\<close> and \<^verbatim>\<open>json.Unmarshal\<close>, a handler on two recording sinks, and requests
  to \<^verbatim>\<open>/track\<close> behind a proxy.
\<close>

definition testContext :: RequestContext where
  "testContext = \<lparr>Now = 1500000000000000000, Method = ''GET'', Endpoint = ''/track'',
     IPHeader = ''X-Forwarded-For'', BadClient = False, Status = 0, LoggerAttempts = []\<rparr>"



text \<open>
  Large requests: an object with a value of \<open>n\<close> characters, an array of one such
  object that is too large even alone, an array of two objects that are not, and the
  POST request whose form value \<^verbatim>\<open>data\<close> is the base64 text of a body.
\<close>

definition bigObject :: "nat \<Rightarrow> string" where
  "bigObject n = ''{\"a\":\"'' @ replicate n (CHR ''x'') @ ''\"}''"

definition oversizeBody :: string where
  "oversizeBody = ''['' @ bigObject 400000 @ '']''"

definition twoObjectsBody :: string where
  "twoObjectsBody = ''['' @ bigObject 200000 @ '','' @ bigObject 200000 @ '']''"

definition testHandler :: "bool \<Rightarrow> bool \<Rightarrow> (memSink, memSink) SpadeHandler" where
  "testHandler f g = \<lparr>edgeLoggers = testLoggers f g, edgeType = ''internal'',
     crossDomainPolicy = ''<cross-domain-policy/>'', instanceID = ''i-0abc'', eventCount = 0,
     handleLargeEvents = True\<rparr>"

definition testRequest :: "string \<Rightarrow> string list \<Rightarrow> string \<Rightarrow> Request" where
  "testRequest m formdata body = \<lparr>rMethod = m, rPath = ''/track'',
     rHeader = (\<lambda>k. if k = ''X-Forwarded-For'' then ''10.0.0.1, 192.168.0.7'' else []),
     rParseForm = None, rForm = (\<lambda>k. if k = ''data'' then formdata else []),
     rBody = body, rBodyErr = None\<rparr>"

definition twoInputs :: "(string \<times> RequestContext \<times> IP \<times> string \<times> string) list" where
  "twoInputs = [(''e30='', testContext, None, [], []), (''e30='', testContext, None, [], [])]"

definition largeRequest :: "string \<Rightarrow> Request" where
  "largeRequest body = testRequest ''POST'' [EncodeToString encodeStd body] []"









section \<open>Properties\<close>

subsection \<open>Evaluation of the concrete runs\<close>







subsection \<open>Fan-out to the two sinks\<close>








subsection \<open>Shutdown\<close>

text \<open>
  Claim C3, as amended. \<^verbatim>\<open>Close\<close> on loggers that are not yet closed returns
  normally, leaves them closed and closes both sinks. A second \<^verbatim>\<open>Close\<close> is not a
  no-op: it closes the closed channel again, which panics, before it does anything
  else.
\<close>

theorem Close_then_Close_panics:
  assumes "\<not> closed e"
  shows "\<exists>e'. EdgeLoggers_Close e = Inr e' \<and> closed e'
           \<and> KinesisEventLogger e' = call_Close (KinesisEventLogger e)
           \<and> S3EventLogger e' = call_Close (S3EventLogger e)
           \<and> EdgeLoggers_Close e' = Inl (Panic ''close of closed channel'')"
  using assms by (simp add: EdgeLoggers_Close_def Let_def)

theorem Close_then_Close_panics_witness:
  "\<not> closed (testLoggers False False)
   \<and> (\<exists>e'. EdgeLoggers_Close (testLoggers False False) = Inr e' \<and> closed e'
         \<and> EdgeLoggers_Close e' = Inl (Panic ''close of closed channel''))"
proof -
  have h: "\<not> closed (testLoggers False False)"
    by (simp add: testLoggers_def)
  from Close_then_Close_panics [OF h] h show ?thesis
    by blast
qed

text \<open>
  The claim as stated fails on fresh loggers: the first \<^verbatim>\<open>Close\<close> returns the closed
  loggers, the second panics.
\<close>

theorem Close_twice_counterexample:
  "EdgeLoggers_Close (testLoggers False False)
     = Inr \<lparr>closed = True,
            S3EventLogger = (memLogger False)\<lparr>this := \<lparr>accepted = [], failing = False, shut = True\<rparr>\<rparr>,
            KinesisEventLogger = (memLogger False)\<lparr>this := \<lparr>accepted = [], failing = False, shut = True\<rparr>\<rparr>\<rparr>
   \<and> EdgeLoggers_Close
        \<lparr>closed = True,
         S3EventLogger = (memLogger False)\<lparr>this := \<lparr>accepted = [], failing = False, shut = True\<rparr>\<rparr>,
         KinesisEventLogger = (memLogger False)\<lparr>this := \<lparr>accepted = [], failing = False, shut = True\<rparr>\<rparr>\<rparr>
     = Inl (Panic ''close of closed channel'')"
  by (simp add: EdgeLoggers_Close_def Let_def testLoggers_def call_Close_def memLogger_def
      memSink_Close_def)

subsection \<open>The forwarded-for chain\<close>











subsection \<open>Reading the payload\<close>

lemma take5_padded:
  "(take 5 (body @ replicate (512 - length body) (CHR 0x00)) = ''data='') = (take 5 body = ''data='')"
proof (cases "5 \<le> length body")
  case True
  then show ?thesis by simp
next
  case False
  then have short: "length body < 5" by simp
  have "take 5 body \<noteq> ''data=''"
  proof
    assume "take 5 body = ''data=''"
    then have "length (take 5 body) = length ''data=''" by simp
    with short show False by simp
  qed
  moreover have "take 5 (body @ replicate (512 - length body) (CHR 0x00)) \<noteq> ''data=''"
  proof
    assume eq: "take 5 (body @ replicate (512 - length body) (CHR 0x00)) = ''data=''"
    from short have "take 5 (body @ replicate (512 - length body) (CHR 0x00)) ! length body = CHR 0x00"
      by (simp add: nth_append)
    with eq have "''data='' ! length body = CHR 0x00" by simp
    moreover have "\<forall>n<5. ''data='' ! n \<noteq> CHR 0x00"
      by (simp add: eval_nat_numeral All_less_Suc)
    ultimately show False
      using short by blast
  qed
  ultimately show ?thesis by simp
qed

lemma HasPrefix_dataFlag: "HasPrefix s dataFlag = (take 5 s = ''data='')"
  by (simp add: HasPrefix_def dataFlag_def eval_nat_numeral)

lemma contents_ReadAll: "contents (ReadAll body) = body"
  by (simp add: contents_def ReadAll_def)

lemma slice_to_ReadAll: "slice_to (ReadAll body) 5 = Inr ((ReadAll body)\<lparr>len := 5\<rparr>)"
  by (simp add: slice_to_def cap_def ReadAll_def)

lemma bytes_Equal_ReadAll:
  "bytes_Equal ((ReadAll body)\<lparr>len := 5\<rparr>) dataFlag = (take 5 body = ''data='')"
proof -
  have "bytes_Equal ((ReadAll body)\<lparr>len := 5\<rparr>) dataFlag
        = (take 5 (body @ replicate (512 - length body) (CHR 0x00)) = ''data='')"
    unfolding bytes_Equal_def contents_def ReadAll_def dataFlag_def by simp
  then show ?thesis
    by (simp only: take5_padded)
qed

lemma slice_from_ReadAll:
  assumes "take 5 body = ''data=''"
  shows "\<exists>b'. slice_from (ReadAll body) 5 = Inr b' \<and> contents b' = drop 5 body"
proof -
  from assms have "length (take 5 body) = 5" by simp
  then have "5 \<le> length body" by simp
  then show ?thesis
    by (simp add: slice_from_def ReadAll_def contents_def)
qed

lemma readData_POST:
  assumes "rMethod r = ''POST''" "Get (rForm r) ''data'' = []" "rBodyErr r = None"
  shows "readData r c = Inr (Inr (if HasPrefix (rBody r) dataFlag
                                   then (drop 5 (rBody r), c\<lparr>BadClient := True\<rparr>)
                                   else (rBody r, c)))"
proof (cases "take 5 (rBody r) = ''data=''")
  case True
  then obtain b' where "slice_from (ReadAll (rBody r)) 5 = Inr b'" "contents b' = drop 5 (rBody r)"
    using slice_from_ReadAll by blast
  with True show ?thesis
    using assms
    by (simp add: readData_def slice_to_ReadAll bytes_Equal_ReadAll HasPrefix_dataFlag Let_def)
next
  case False
  then show ?thesis
    using assms
    by (simp add: readData_def slice_to_ReadAll bytes_Equal_ReadAll HasPrefix_dataFlag
        contents_ReadAll Let_def)
qed






text \<open>A body of three bytes is read and becomes the payload.\<close>

lemma readData_short_body:
  "readData (testRequest ''POST'' [] ''dat'') testContext = Inr (Inr (''dat'', testContext))"
proof -
  have "readData (testRequest ''POST'' [] ''dat'') testContext
        = Inr (Inr (if HasPrefix (rBody (testRequest ''POST'' [] ''dat'')) dataFlag
                    then (drop 5 (rBody (testRequest ''POST'' [] ''dat'')), testContext\<lparr>BadClient := True\<rparr>)
                    else (rBody (testRequest ''POST'' [] ''dat''), testContext)))"
    by (rule readData_POST) (simp_all add: testRequest_def Get_def)
  then show ?thesis
    by (simp add: HasPrefix_dataFlag testRequest_def)
qed

subsection \<open>Status codes and the pixel\<close>
















subsection \<open>Event identifiers\<close>

lemma hexval_hexdigit: "n < 16 \<Longrightarrow> hexval (hexdigit n) = n"
proof -
  have "\<forall>n<16. hexval (hexdigit n) = n"
    by (simp add: eval_nat_numeral All_less_Suc hexval_def hexdigit_def)
  then show "n < 16 \<Longrightarrow> hexval (hexdigit n) = n" by blast
qed

lemma hexdigit_not_dash: "n < 16 \<Longrightarrow> hexdigit n \<noteq> CHR ''-''"
proof -
  have "\<forall>n<16. hexdigit n \<noteq> CHR ''-''"
    by (simp add: eval_nat_numeral All_less_Suc hexdigit_def)
  then show "n < 16 \<Longrightarrow> hexdigit n \<noteq> CHR ''-''" by blast
qed

lemma unhex_snoc: "unhex (xs @ [c]) = 16 * unhex xs + hexval c"
  by (simp add: unhex_def)

lemma unhex_hex: "unhex (hex n) = n"
proof (induction n rule: hex.induct)
  case (1 n)
  show ?case
  proof (cases "n < 16")
    case True
    then show ?thesis
      by (simp add: hex.simps [of n] unhex_def hexval_hexdigit)
  next
    case False
    with 1 have "unhex (hex (n div 16)) = n div 16" by simp
    with False show ?thesis
      by (simp add: hex.simps [of n] unhex_snoc hexval_hexdigit)
  qed
qed

lemma no_dash_hex: "CHR ''-'' \<notin> set (hex n)"
proof (induction n rule: hex.induct)
  case (1 n)
  show ?case
  proof (cases "n < 16")
    case True
    then show ?thesis
      using hexdigit_not_dash [of n] by (auto simp: hex.simps [of n])
  next
    case False
    with 1 have "CHR ''-'' \<notin> set (hex (n div 16))" by simp
    with False show ?thesis
      using hexdigit_not_dash [of "n mod 16"] by (auto simp: hex.simps [of n])
  qed
qed

lemma unhex_zeros: "unhex (replicate k (CHR ''0'') @ s) = unhex s"
proof -
  have "foldl (\<lambda>a c. 16 * a + hexval c) 0 (replicate k (CHR ''0'')) = 0"
    by (induction k) (simp_all add: hexval_def)
  then show ?thesis by (simp add: unhex_def)
qed

lemma unhex_fmt: "unhex (fmt_08x_uint64 c) = unat c"
  by (simp add: fmt_08x_uint64_def pad0_def unhex_zeros unhex_hex)

lemma no_dash_fmt: "CHR ''-'' \<notin> set (fmt_08x_uint64 c)"
  using no_dash_hex [of "unat c"] by (auto simp: fmt_08x_uint64_def pad0_def)

lemma uuidCounter_suffix:
  assumes "CHR ''-'' \<notin> set h"
  shows "uuidCounter (p @ ''-'' @ h) = unhex h"
proof -
  have "takeWhile (\<lambda>c. c \<noteq> CHR ''-'') (rev h @ CHR ''-'' # rev p) = rev h"
    using assms by (auto simp: takeWhile_tail)
  then show ?thesis by (simp add: uuidCounter_def)
qed

lemma buildEvent_uuid:
  "Uuid (fst (buildEvent s data c ip xff ua))
     = instanceID s @ ''-'' @ fmt_08x_int64 (Unix (Now c)) @ ''-'' @ fmt_08x_uint64 (eventCount s + 1)"
  "eventCount (snd (buildEvent s data c ip xff ua)) = eventCount s + 1"
  by (simp_all add: buildEvent_def Let_def)

lemma buildEvent_counter:
  "uuidCounter (Uuid (fst (buildEvent s data c ip xff ua))) = unat (eventCount s + 1)"
proof -
  have "Uuid (fst (buildEvent s data c ip xff ua))
     = (instanceID s @ ''-'' @ fmt_08x_int64 (Unix (Now c))) @ ''-'' @ fmt_08x_uint64 (eventCount s + 1)"
    by (simp add: buildEvent_uuid)
  then show ?thesis
    by (simp only: uuidCounter_suffix [OF no_dash_fmt] unhex_fmt)
qed

lemma unat_succ: "unat (c :: 64 word) + 1 < 2 ^ 64 \<Longrightarrow> unat (c + 1) = unat c + 1"
  using unat_add_lem [of c 1] by simp

lemma buildRun_counters:
  "unat (eventCount s) + length inputs < 2 ^ 64 \<Longrightarrow>
     (\<forall>e \<in> set (fst (buildRun s inputs)). unat (eventCount s) < uuidCounter (Uuid e))
     \<and> distinct (map (\<lambda>e. uuidCounter (Uuid e)) (fst (buildRun s inputs)))"
proof (induction inputs arbitrary: s)
  case Nil
  then show ?case by simp
next
  case (Cons i inputs)
  obtain data c ip xff ua where i: "i = (data, c, ip, xff, ua)" by (cases i)
  obtain e s1 where b: "buildEvent s data c ip xff ua = (e, s1)" by (cases "buildEvent s data c ip xff ua")
  obtain es s2 where r: "buildRun s1 inputs = (es, s2)" by (cases "buildRun s1 inputs")
  from Cons.prems have nowrap: "unat (eventCount s) + 1 < 2 ^ 64" by simp
  have c1: "eventCount s1 = eventCount s + 1"
    using buildEvent_uuid(2) [of s data c ip xff ua] b by simp
  have u1: "unat (eventCount s1) = unat (eventCount s) + 1"
    using unat_succ [OF nowrap] c1 by simp
  have ce: "uuidCounter (Uuid e) = unat (eventCount s) + 1"
    using buildEvent_counter [of s data c ip xff ua] b unat_succ [OF nowrap] by simp
  from Cons.prems u1 have "unat (eventCount s1) + length inputs < 2 ^ 64" by simp
  from Cons.IH [OF this] r
  have ih: "\<forall>e \<in> set es. unat (eventCount s1) < uuidCounter (Uuid e)"
    "distinct (map (\<lambda>e. uuidCounter (Uuid e)) es)"
    by simp_all
  from ih u1 ce show ?case
    by (auto simp: i b r)
qed

lemma buildRun_length: "length (fst (buildRun s inputs)) = length inputs"
proof (induction inputs arbitrary: s)
  case Nil
  show ?case by simp
next
  case (Cons i inputs)
  obtain data c ip xff ua where i: "i = (data, c, ip, xff, ua)" by (cases i)
  obtain e s1 where b: "buildEvent s data c ip xff ua = (e, s1)" by (cases "buildEvent s data c ip xff ua")
  obtain es s2 where r: "buildRun s1 inputs = (es, s2)" by (cases "buildRun s1 inputs")
  from Cons.IH [of s1] r show ?case
    by (simp add: i b)
qed

text \<open>
  Claim C5, as amended. The uuid of a built event is the instance id, the Unix seconds
  and the counter, the two numbers as \<^verbatim>\<open>%08x\<close>, joined by hyphens. The counter is a
  \<^verbatim>\<open>uint64\<close> that each built event increments by one modulo \<open>2^64\<close>: it increases
  strictly as long as it does not wrap around, and a run of \<open>N\<close> events that starts at
  the counter \<open>c\<close> with \<open>c + N < 2^64\<close> emits \<open>N\<close> pairwise distinct uuids.
\<close>

theorem uuid_format_and_uniqueness:
  "Uuid (fst (buildEvent s data c ip xff ua))
     = instanceID s @ ''-'' @ fmt_08x_int64 (Unix (Now c)) @ ''-'' @ fmt_08x_uint64 (eventCount s + 1)
   \<and> eventCount (snd (buildEvent s data c ip xff ua)) = eventCount s + 1
   \<and> (unat (eventCount s) + 1 < 2 ^ 64 \<longrightarrow> eventCount s < eventCount (snd (buildEvent s data c ip xff ua)))
   \<and> (unat (eventCount s) + length inputs < 2 ^ 64 \<longrightarrow>
        distinct (map Uuid (fst (buildRun s inputs)))
        \<and> card (set (map Uuid (fst (buildRun s inputs)))) = length inputs)"
proof (intro conjI impI)
  show "Uuid (fst (buildEvent s data c ip xff ua))
     = instanceID s @ ''-'' @ fmt_08x_int64 (Unix (Now c)) @ ''-'' @ fmt_08x_uint64 (eventCount s + 1)"
    by (rule buildEvent_uuid)
  show "eventCount (snd (buildEvent s data c ip xff ua)) = eventCount s + 1"
    by (rule buildEvent_uuid)
next
  assume "unat (eventCount s) + 1 < 2 ^ 64"
  then show "eventCount s < eventCount (snd (buildEvent s data c ip xff ua))"
    by (simp add: buildEvent_uuid word_less_nat_alt unat_succ)
next
  assume "unat (eventCount s) + length inputs < 2 ^ 64"
  then have "distinct (map (\<lambda>e. uuidCounter (Uuid e)) (fst (buildRun s inputs)))"
    using buildRun_counters by blast
  then have "distinct (map uuidCounter (map Uuid (fst (buildRun s inputs))))"
    by (simp add: comp_def)
  then show d: "distinct (map Uuid (fst (buildRun s inputs)))"
    using distinct_map [of uuidCounter "map Uuid (fst (buildRun s inputs))"] by blast
  then show "card (set (map Uuid (fst (buildRun s inputs)))) = length inputs"
    using distinct_card [OF d] by (simp add: buildRun_length)
qed

theorem uuid_format_and_uniqueness_witness:
  "unat (eventCount (testHandler False False)) + 1 < 2 ^ 64
   \<and> unat (eventCount (testHandler False False)) + length twoInputs < 2 ^ 64
   \<and> eventCount (testHandler False False)
        < eventCount (snd (buildEvent (testHandler False False) ''e30='' testContext None [] []))
   \<and> distinct (map Uuid (fst (buildRun (testHandler False False) twoInputs)))"
proof -
  have h: "unat (eventCount (testHandler False False)) + 1 < 2 ^ 64"
    "unat (eventCount (testHandler False False)) + length twoInputs < 2 ^ 64"
    by (simp_all add: testHandler_def twoInputs_def)
  from uuid_format_and_uniqueness [of "testHandler False False" "''e30=''" testContext None "[]" "[]"
         twoInputs] h
  show ?thesis
    by (elim conjE impE) (assumption | intro conjI)+
qed

text \<open>
  The claim as stated fails where the counter wraps around: from the largest value
  of a \<^verbatim>\<open>uint64\<close> the next event takes the counter to zero.
\<close>

theorem counter_wraps_counterexample:
  "eventCount (snd (buildEvent ((testHandler False False)\<lparr>eventCount := 0xFFFFFFFFFFFFFFFF\<rparr>)
      ''e30='' testContext None [] [])) = 0
   \<and> \<not> (eventCount ((testHandler False False)\<lparr>eventCount := 0xFFFFFFFFFFFFFFFF\<rparr>)
          < eventCount (snd (buildEvent ((testHandler False False)\<lparr>eventCount := 0xFFFFFFFFFFFFFFFF\<rparr>)
              ''e30='' testContext None [] [])))"
  by (simp add: buildEvent_def Let_def)

subsection \<open>Base64\<close>

lemma index_of_nth:
  "distinct xs \<Longrightarrow> n < length xs \<Longrightarrow> index_of xs (xs ! n) = Some n"
proof (induction xs arbitrary: n)
  case Nil
  then show ?case by simp
next
  case (Cons x xs)
  show ?case
  proof (cases n)
    case 0
    then show ?thesis by simp
  next
    case (Suc m)
    with Cons.prems have "xs ! m \<in> set xs" "x \<notin> set xs" by simp_all
    then have "x \<noteq> xs ! m" by blast
    with Suc Cons show ?thesis by simp
  qed
qed

lemma encodeStd_props:
  "length encodeStd = 64"
  "distinct encodeStd"
  "CHR ''='' \<notin> set encodeStd"
  "CHR 0x0A \<notin> set encodeStd"
  "CHR 0x0D \<notin> set encodeStd"
  "CHR ''-'' \<notin> set encodeStd"
  "CHR ''_'' \<notin> set encodeStd"
  by (simp_all add: encodeStd_def)

lemma small_div:
  fixes y :: nat
  shows "y < 256 \<Longrightarrow> y div 16 div 16 = 0"
    and "y < 256 \<Longrightarrow> y div 64 div 4 = 0"
    and "y < 256 \<Longrightarrow> y div 16 mod 16 = y div 16"
    and "y < 256 \<Longrightarrow> y div 64 mod 4 = y div 64"
  by (simp_all add: div_mult2_eq [symmetric] less_mult_imp_div_less)

lemma sextet_arith:
  fixes x y z :: nat
  shows "y < 256 \<Longrightarrow> x div 4 * 4 + (x mod 4 * 16 + y div 16) div 16 = x"
    and "y < 256 \<Longrightarrow> z < 256 \<Longrightarrow> (x mod 4 * 16 + y div 16) mod 16 * 16 + (y mod 16 * 4 + z div 64) div 4 = y"
    and "z < 256 \<Longrightarrow> (y mod 16 * 4 + z div 64) mod 4 * 64 + z mod 64 = z"
    and "x div 4 * 4 + (x mod 4 * 16) div 16 = x"
    and "y < 256 \<Longrightarrow> (x mod 4 * 16 + y div 16) mod 16 * 16 + (y mod 16 * 4) div 4 = y"
  by (simp_all add: small_div)

lemma sextet_bounds:
  fixes x y z :: nat
  shows "x < 256 \<Longrightarrow> x div 4 < 64"
    and "y < 256 \<Longrightarrow> x mod 4 * 16 + y div 16 < 64"
    and "z < 256 \<Longrightarrow> y mod 16 * 4 + z div 64 < 64"
    and "z mod 64 < 64"
    and "x mod 4 * 16 < 64"
    and "y mod 16 * 4 < 64"
  by simp_all

lemma alphabet_nth:
  assumes "distinct al" "length al = 64" "CHR ''='' \<notin> set al" "n < 64"
  shows "index_of al (al ! n) = Some n" "al ! n \<noteq> CHR ''=''" "al ! n \<in> set al"
proof -
  from assms show "index_of al (al ! n) = Some n"
    by (simp add: index_of_nth)
  from assms have m: "al ! n \<in> set al" by simp
  then show "al ! n \<noteq> CHR ''=''"
    using assms(3) by metis
  from m show "al ! n \<in> set al" .
qed

lemma decodeQuanta_EncodeToString:
  assumes "distinct al" "length al = 64" "CHR ''='' \<notin> set al"
  shows "decodeQuanta al (EncodeToString al xs) = Inr xs"
  using assms
proof (induction al xs rule: EncodeToString.induct)
  case (1 al)
  show ?case by simp
next
  case (2 al a)
  then show ?case
    by (simp add: Let_def alphabet_nth sextet_bounds sextet_arith small_div)
next
  case (3 al a b)
  then show ?case
    by (simp add: Let_def alphabet_nth sextet_bounds sextet_arith small_div)
next
  case (4 al a b c rest)
  then have "decodeQuanta al (EncodeToString al rest) = Inr rest" by simp
  with 4 show ?case
    by (simp add: Let_def alphabet_nth sextet_bounds sextet_arith small_div)
qed

lemma set_EncodeToString:
  assumes "length al = 64"
  shows "set (EncodeToString al xs) \<subseteq> set al \<union> {CHR ''=''}"
  using assms
proof (induction al xs rule: EncodeToString.induct)
  case (1 al)
  show ?case by simp
next
  case (2 al a)
  then show ?case by (simp add: Let_def sextet_bounds)
next
  case (3 al a b)
  then show ?case by (simp add: Let_def sextet_bounds)
next
  case (4 al a b c rest)
  then have "set (EncodeToString al rest) \<subseteq> set al \<union> {CHR ''=''}" by simp
  with 4 show ?case by (simp add: Let_def sextet_bounds)
qed

lemma length_EncodeToString: "length (EncodeToString al xs) = 4 * ((length xs + 2) div 3)"
  by (induction al xs rule: EncodeToString.induct) (simp_all add: Let_def, arith)

lemma Decode_EncodeToString: "Decode encodeStd (EncodeToString encodeStd xs) = Inr xs"
proof -
  have "\<forall>c \<in> set (EncodeToString encodeStd xs). c \<noteq> CHR 0x0A \<and> c \<noteq> CHR 0x0D"
    using set_EncodeToString [of encodeStd xs] encodeStd_props by auto
  then have "filter (\<lambda>c. c \<noteq> CHR 0x0A \<and> c \<noteq> CHR 0x0D) (EncodeToString encodeStd xs)
             = EncodeToString encodeStd xs"
    by (simp add: filter_id_conv)
  then show ?thesis
    by (simp add: Decode_def decodeQuanta_EncodeToString encodeStd_props)
qed

lemma Determine_no_url_marker:
  "CHR ''-'' \<notin> set ys \<Longrightarrow> CHR ''_'' \<notin> set ys \<Longrightarrow> DetermineBase64Encoding ys = encodeStd"
  by (induction ys) auto

lemma Determine_EncodeToString: "DetermineBase64Encoding (EncodeToString encodeStd xs) = encodeStd"
proof (rule Determine_no_url_marker)
  show "CHR ''-'' \<notin> set (EncodeToString encodeStd xs)"
    using set_EncodeToString [of encodeStd xs] encodeStd_props by auto
  show "CHR ''_'' \<notin> set (EncodeToString encodeStd xs)"
    using set_EncodeToString [of encodeStd xs] encodeStd_props by auto
qed


subsection \<open>Large requests\<close>

lemma splitLoop_result:
  "splitLoop s c ip xff ua evs st sc fc = (st', sc', fc', s', c') \<Longrightarrow>
     st' = (if \<exists>e \<in> set evs. reencodedTooLarge e then 413 else st)
     \<and> sc' + fc' = sc + fc + length evs \<and> sc \<le> sc'
     \<and> eventCount s' = eventCount s + of_nat (length evs)"
proof (induction evs arbitrary: s c st sc fc)
  case Nil
  then show ?case by simp
next
  case (Cons ev evs)
  obtain event s1 where b: "buildEvent s (EncodeToString encodeStd ev) c ip xff ua = (event, s1)"
    by (cases "buildEvent s (EncodeToString encodeStd ev) c ip xff ua")
  obtain err lg c2 where l: "EdgeLoggers_log (edgeLoggers s1) event c = (err, lg, c2)"
    by (cases "EdgeLoggers_log (edgeLoggers s1) event c") auto
  have e1: "eventCount s1 = eventCount s + 1"
    using b by (auto simp: buildEvent_def Let_def)
  let ?st = "if length (EncodeToString encodeStd ev) > maxBytesPerRequest then 413 else st"
  show ?case
  proof (cases "err = None")
    case True
    with Cons.prems b l
    have "splitLoop (s1\<lparr>edgeLoggers := lg\<rparr>) c2 ip xff ua evs ?st (sc + 1) fc = (st', sc', fc', s', c')"
      by (simp add: Let_def)
    from Cons.IH [OF this] e1 show ?thesis
      by (auto simp: reencodedTooLarge_def)
  next
    case False
    with Cons.prems b l
    have "splitLoop (s1\<lparr>edgeLoggers := lg\<rparr>) c2 ip xff ua evs ?st sc (fc + 1) = (st', sc', fc', s', c')"
      by (simp add: Let_def)
    from Cons.IH [OF this] e1 show ?thesis
      by (auto simp: reencodedTooLarge_def)
  qed
qed

lemma log_recording:
  assumes "recordingLoggers lg f g A K"
  shows "\<exists>err lg' c'. EdgeLoggers_log lg event c = (err, lg', c')
           \<and> (err \<noteq> None) = (f \<and> g)
           \<and> recordingLoggers lg' f g (if f then A else A @ [event]) (if g then K else K @ [event])"
  using assms
  by (auto simp: recordingLoggers_def EdgeLoggers_log_def call_Log_def memSink_Log_def Let_def
      split: prod.splits)

lemma splitLoop_records:
  "recordingLoggers (edgeLoggers s) f g A K \<Longrightarrow>
     \<exists>evs st' sc' fc' s' c'.
        splitLoop s c ip xff ua elems st sc fc = (st', sc', fc', s', c')
        \<and> sc' = (if f \<and> g then sc else sc + length elems)
        \<and> recordingLoggers (edgeLoggers s') f g (if f then A else A @ evs) (if g then K else K @ evs)
        \<and> map Data evs = map (EncodeToString encodeStd) elems"
proof (induction elems arbitrary: s c st sc fc A K)
  case Nil
  then show ?case
    by (cases f; cases g) (auto intro!: exI [of _ "[]"])
next
  case (Cons el elems)
  obtain event s1 where b: "buildEvent s (EncodeToString encodeStd el) c ip xff ua = (event, s1)"
    by (cases "buildEvent s (EncodeToString encodeStd el) c ip xff ua")
  then have d: "Data event = EncodeToString encodeStd el" and lg1: "edgeLoggers s1 = edgeLoggers s"
    by (auto simp: buildEvent_def Let_def)
  from log_recording [OF Cons.prems, of event c] lg1
  obtain err lg c2 where l: "EdgeLoggers_log (edgeLoggers s1) event c = (err, lg, c2)"
    and err: "(err \<noteq> None) = (f \<and> g)"
    and rec: "recordingLoggers lg f g (if f then A else A @ [event]) (if g then K else K @ [event])"
    by auto
  let ?s2 = "s1\<lparr>edgeLoggers := lg\<rparr>"
  let ?st = "if length (EncodeToString encodeStd el) > maxBytesPerRequest then 413 else st"
  let ?sc = "if err \<noteq> None then sc else sc + 1"
  let ?fc = "if err \<noteq> None then fc + 1 else fc"
  from rec have "recordingLoggers (edgeLoggers ?s2) f g (if f then A else A @ [event]) (if g then K else K @ [event])"
    by simp
  from Cons.IH [OF this, of c2 ?st ?sc ?fc]
  obtain evs st' sc' fc' s' c' where
    loop: "splitLoop ?s2 c2 ip xff ua elems ?st ?sc ?fc = (st', sc', fc', s', c')"
    and sc': "sc' = (if f \<and> g then ?sc else ?sc + length elems)"
    and rec': "recordingLoggers (edgeLoggers s') f g
                 (if f then (if f then A else A @ [event]) else (if f then A else A @ [event]) @ evs)
                 (if g then (if g then K else K @ [event]) else (if g then K else K @ [event]) @ evs)"
    and data: "map Data evs = map (EncodeToString encodeStd) elems"
    by blast
  have "splitLoop s c ip xff ua (el # elems) st sc fc = (st', sc', fc', s', c')"
    using b l loop by (auto simp: Let_def split: if_splits)
  moreover have "sc' = (if f \<and> g then sc else sc + length (el # elems))"
    using sc' err by auto
  moreover have "recordingLoggers (edgeLoggers s') f g
                   (if f then A else A @ (event # evs)) (if g then K else K @ (event # evs))"
    using rec' by (cases f; cases g) simp_all
  moreover have "map Data (event # evs) = map (EncodeToString encodeStd) (el # elems)"
    using d data by simp
  ultimately show ?case by blast
qed

lemma ExtractEvent_large:
  assumes "rParseForm r = None" "readData r c = Inr (Inr (data, c1))" "length data > maxBytesPerRequest"
  shows "ExtractEvent P U s r v c =
           (if \<not> handleLargeEvents s then Inr (None, 413, s, c1)
            else Inr (splitLargeRequest U s c1 (parseLastForwarder P (rHeader r (IPHeader c)))
                        (rHeader r (IPHeader c)) (requestUserAgent r v) data))"
proof -
  from assms(3) have "data \<noteq> []" by auto
  with assms show ?thesis
    by (simp add: ExtractEvent_def Let_def requestUserAgent_def)
qed

lemma splitLargeRequest_decoded:
  assumes "Decode (DetermineBase64Encoding data) data = Inr decoded" "take 2 decoded = ''[{''"
    "U decoded = Inr elems" "splitLoop s c ip xff ua elems 204 0 0 = (st', sc, fc, s', c')"
  shows "splitLargeRequest U s c ip xff ua data = (None, if sc = 0 then 500 else st', s', c')"
proof -
  from assms(2) have "length (take 2 decoded) = 2" by simp
  then have "\<not> length decoded < 1" by auto
  with assms show ?thesis
    by (simp add: splitLargeRequest_def)
qed

lemma handleSpadeRequests_large_disabled:
  assumes "rParseForm r = None" "readData r c = Inr (Inr (data, c1))" "length data > maxBytesPerRequest"
    "\<not> handleLargeEvents s"
  shows "handleSpadeRequests P U s r v c = Inr (413, s, c1)"
  using assms(4) by (simp add: handleSpadeRequests_def ExtractEvent_large [OF assms(1-3)])

lemma handleSpadeRequests_large_enabled:
  assumes "rParseForm r = None" "readData r c = Inr (Inr (data, c1))" "length data > maxBytesPerRequest"
    "handleLargeEvents s" "Decode (DetermineBase64Encoding data) data = Inr decoded"
    "take 2 decoded = ''[{''" "U decoded = Inr elems"
    "splitLoop s c1 (parseLastForwarder P (rHeader r (IPHeader c))) (rHeader r (IPHeader c))
       (requestUserAgent r v) elems 204 0 0 = (st', sc, fc, s', c')"
  shows "handleSpadeRequests P U s r v c =
           Inr ((if sc = 0 then 500 else if (\<exists>e \<in> set elems. reencodedTooLarge e) then 413 else 204), s', c')"
proof -
  from splitLoop_result [OF assms(8)]
  have "st' = (if \<exists>e \<in> set elems. reencodedTooLarge e then 413 else 204)" by simp
  with assms(4) show ?thesis
    by (simp add: handleSpadeRequests_def ExtractEvent_large [OF assms(1-3)]
        splitLargeRequest_decoded [where U = U, OF assms(5-8)])
qed


subsection \<open>The object sink\<close>

text \<open>
  Claim C10. The object sink's \<^verbatim>\<open>Log\<close> returns an error exactly when the formatting
  function fails, and then it returns that error. Handing the formatted line to the
  upload pipeline has no result, so whatever the pipeline does with the line (the
  parameter \<open>U\<close> is arbitrary, also one that loses the line) is not visible in what
  \<^verbatim>\<open>Log\<close> returns.
\<close>

theorem s3Logger_Log_error_iff_format_fails:
  "fst (s3Logger_Log U s3l e) = (case eventToStringFunc s3l e of Inl err \<Rightarrow> Some err | Inr s \<Rightarrow> None)"
  by (simp add: s3Logger_Log_def split: sum.split)

end
